theory Spec2Isabelle
  imports Main "HOL-Library.Sublist" "HOL-Library.Code_Target_Nat"
begin

section \<open>Python strings\<close>

text \<open>
  A Python \<open>str\<close> is a sequence of Unicode code points, and \<open>len\<close> counts code points, so
  a string is a list of natural numbers here. \<open>py\<close> turns an ASCII literal of the scripts
  into that form. The horizontal ellipsis of \<open>is_valid_comment\<close> is U+2026 (8230), the two
  icon glyphs of \<open>junk_keywords\<close> are U+E5D4 (58836) and U+E838 (59448).
\<close>

type_synonym pystr = "nat list"

definition py :: "string \<Rightarrow> pystr" where
  "py s = map of_char s"

text \<open>
  What the scripts need from the Unicode character database for code points from 128 on
  is a parameter; below 128 every classification is written out. \<open>u_final_sigma U s i\<close>
  says whether the capital sigma at position \<open>i\<close> of \<open>s\<close> is in final position, the one
  place where \<open>str.lower\<close> looks at the context of a character.
\<close>

record ucd =
  u_isspace :: "nat \<Rightarrow> bool"
  u_isalnum :: "nat \<Rightarrow> bool"
  u_decimal :: "nat \<Rightarrow> nat option"
  u_isdigit :: "nat \<Rightarrow> bool"
  u_islower :: "nat \<Rightarrow> bool"
  u_tolower :: "nat \<Rightarrow> nat list"
  u_final_sigma :: "nat list \<Rightarrow> nat \<Rightarrow> bool"

text \<open>
  The tables used for the worked examples: no code point from 128 on is white space, a
  letter or a digit, and lowering leaves it alone. This is what the Unicode database says
  about U+2026, the only such code point in the examples.
\<close>

definition ucd_plain :: ucd where
  "ucd_plain = \<lparr> u_isspace = (\<lambda>c. False), u_isalnum = (\<lambda>c. False), u_decimal = (\<lambda>c. None),
                 u_isdigit = (\<lambda>c. False), u_islower = (\<lambda>c. False), u_tolower = (\<lambda>c. [c]),
                 u_final_sigma = (\<lambda>s i. False) \<rparr>"

definition py_isspace :: "ucd \<Rightarrow> nat \<Rightarrow> bool" where
  "py_isspace U c =
     (if c < 128 then (9 \<le> c \<and> c \<le> 13) \<or> (28 \<le> c \<and> c \<le> 32) else u_isspace U c)"

text \<open>\<open>s.strip()\<close>\<close>

definition py_strip :: "ucd \<Rightarrow> pystr \<Rightarrow> pystr" where
  "py_strip U s = rev (dropWhile (py_isspace U) (rev (dropWhile (py_isspace U) s)))"

text \<open>\<open>s.lower()\<close>: character by character, capital sigma (931) by its context.\<close>

definition lower_at :: "ucd \<Rightarrow> pystr \<Rightarrow> nat \<Rightarrow> nat list" where
  "lower_at U s i =
     (let c = s ! i in
      if c < 128 then (if 65 \<le> c \<and> c \<le> 90 then [c + 32] else [c])
      else if c = 931 then (if u_final_sigma U s i then [962] else [963])
      else u_tolower U c)"

definition py_lower :: "ucd \<Rightarrow> pystr \<Rightarrow> pystr" where
  "py_lower U s = concat (map (lower_at U s) [0..<length s])"

text \<open>\<open>needle in hay\<close> and \<open>s.endswith(suf)\<close>\<close>

definition py_in :: "pystr \<Rightarrow> pystr \<Rightarrow> bool" where
  "py_in needle hay = sublist needle hay"

definition py_endswith :: "pystr \<Rightarrow> pystr \<Rightarrow> bool" where
  "py_endswith s suf = suffix suf s"

text \<open>\<open>sep.join(xs)\<close>\<close>

fun py_join :: "pystr \<Rightarrow> pystr list \<Rightarrow> pystr" where
  "py_join sep [] = []"
| "py_join sep [x] = x"
| "py_join sep (x # y # ys) = x @ sep @ py_join sep (y # ys)"

text \<open>
  Cutting a string at every character that satisfies \<open>P\<close>; \<open>s.split()\<close> keeps the
  non-empty pieces between runs of white space.
\<close>

fun split_on :: "('a \<Rightarrow> bool) \<Rightarrow> 'a list \<Rightarrow> 'a list list" where
  "split_on P [] = [[]]"
| "split_on P (x # xs) =
     (if P x then [] # split_on P xs
      else (case split_on P xs of [] \<Rightarrow> [[x]] | w # ws \<Rightarrow> (x # w) # ws))"

definition py_split :: "ucd \<Rightarrow> pystr \<Rightarrow> pystr list" where
  "py_split U s = filter (\<lambda>w. w \<noteq> []) (split_on (py_isspace U) s)"

text \<open>The character classes of the regular expressions and of \<open>str\<close>'s predicates.\<close>

definition ascii_letter :: "nat \<Rightarrow> bool" where
  "ascii_letter c = ((65 \<le> c \<and> c \<le> 90) \<or> (97 \<le> c \<and> c \<le> 122))"

definition ascii_digit :: "nat \<Rightarrow> bool" where
  "ascii_digit c = (48 \<le> c \<and> c \<le> 57)"

definition re_word :: "ucd \<Rightarrow> nat \<Rightarrow> bool" where
  "re_word U c = (if c < 128 then ascii_letter c \<or> ascii_digit c \<or> c = 95 else u_isalnum U c)"

definition digit_value :: "ucd \<Rightarrow> nat \<Rightarrow> nat option" where
  "digit_value U c = (if c < 128 then (if ascii_digit c then Some (c - 48) else None) else u_decimal U c)"

definition re_digit :: "ucd \<Rightarrow> nat \<Rightarrow> bool" where
  "re_digit U c = (digit_value U c \<noteq> None)"

definition py_islower :: "ucd \<Rightarrow> nat \<Rightarrow> bool" where
  "py_islower U c = (if c < 128 then 97 \<le> c \<and> c \<le> 122 else u_islower U c)"

definition py_isdigit :: "ucd \<Rightarrow> pystr \<Rightarrow> bool" where
  "py_isdigit U s = (s \<noteq> [] \<and> list_all (\<lambda>c. if c < 128 then ascii_digit c else u_isdigit U c) s)"

text \<open>
  \<open>int(s)\<close> on the strings the scripts pass to it (a match of \<open>\d+\<close> or \<open>\d\<close>, or a
  string for which \<open>isdigit\<close> holds): the decimal value, or \<open>None\<close> for the ValueError.
\<close>

fun digits_value :: "ucd \<Rightarrow> nat \<Rightarrow> pystr \<Rightarrow> nat option" where
  "digits_value U acc [] = Some acc"
| "digits_value U acc (c # cs) =
     (case digit_value U c of None \<Rightarrow> None | Some v \<Rightarrow> digits_value U (10 * acc + v) cs)"

definition py_int :: "ucd \<Rightarrow> pystr \<Rightarrow> nat option" where
  "py_int U s = (if s = [] then None else digits_value U 0 s)"

text \<open>\<open>re.search(r'\d+', s)\<close> and \<open>re.search(r'\d', s)\<close>: the matched text, leftmost and longest.\<close>

definition search_digits :: "ucd \<Rightarrow> pystr \<Rightarrow> pystr option" where
  "search_digits U s =
     (let r = dropWhile (\<lambda>c. \<not> re_digit U c) s
      in if r = [] then None else Some (takeWhile (re_digit U) r))"

definition search_digit :: "ucd \<Rightarrow> pystr \<Rightarrow> pystr option" where
  "search_digit U s =
     (case dropWhile (\<lambda>c. \<not> re_digit U c) s of [] \<Rightarrow> None | c # _ \<Rightarrow> Some [c])"

text \<open>The format specifications \<open>{n}\<close> and \<open>{n:03d}\<close> of the f-strings, for \<open>n \<ge> 0\<close>.\<close>

fun dec_digits :: "nat \<Rightarrow> pystr" where
  "dec_digits n = (if n < 10 then [48 + n] else dec_digits (n div 10) @ [48 + n mod 10])"

declare dec_digits.simps [simp del]

definition fmt_03d :: "nat \<Rightarrow> pystr" where
  "fmt_03d n = replicate (3 - length (dec_digits n)) 48 @ dec_digits n"

text \<open>
  \<open>re.search(r'url\(["\']?(https[^"\')]+)["\']?\)', style)\<close>, group 1. At one start
  position the match is forced: \<open>url(\<close>, a quote if there is one, \<open>https\<close>, the longest
  run of characters other than the two quotes (34, 39) and the closing parenthesis (41),
  which must not be empty, then a quote if there is one, then the closing parenthesis.
  \<open>re.search\<close> takes the leftmost start position that matches.
\<close>

definition is_quote :: "nat \<Rightarrow> bool" where
  "is_quote c = (c = 34 \<or> c = 39)"

definition url_char :: "nat \<Rightarrow> bool" where
  "url_char c = (\<not> is_quote c \<and> c \<noteq> 41)"

definition skip_quote :: "pystr \<Rightarrow> pystr" where
  "skip_quote t = (case t of [] \<Rightarrow> [] | c # cs \<Rightarrow> if is_quote c then cs else c # cs)"

definition match_url_at :: "pystr \<Rightarrow> pystr option" where
  "match_url_at t =
     (if prefix (py ''url('') t then
        let t2 = skip_quote (drop 4 t) in
        if prefix (py ''https'') t2 then
          let body = takeWhile url_char (drop 5 t2);
              after = skip_quote (dropWhile url_char (drop 5 t2))
          in if body \<noteq> [] \<and> prefix [41] after then Some (py ''https'' @ body) else None
        else None
      else None)"

fun search_url :: "pystr \<Rightarrow> pystr option" where
  "search_url [] = None"
| "search_url (c # cs) =
     (case match_url_at (c # cs) of Some u \<Rightarrow> Some u | None \<Rightarrow> search_url cs)"

section \<open>The rendered document\<close>

text \<open>
  A snapshot of the page as the browser driver shows it: the elements in document order,
  each with its tag, its attributes, the text that \<open>WebElement.text\<close> returns for it and
  the index of its parent. An element handle is an index into the snapshot. A parent comes
  before its children; a parent index that does not is read as no parent.
\<close>

record node =
  n_tag :: string
  n_attrs :: "(string \<times> pystr) list"
  n_text :: pystr
  n_parent :: "nat option"

type_synonym document = "node list"

definition parent_of :: "document \<Rightarrow> nat \<Rightarrow> nat option" where
  "parent_of d e =
     (if e < length d then
        (case n_parent (d ! e) of None \<Rightarrow> None | Some p \<Rightarrow> if p < e then Some p else None)
      else None)"

text \<open>The ancestors of an element, the nearest first.\<close>

function ancestors :: "document \<Rightarrow> nat \<Rightarrow> nat list" where
  "ancestors d e = (case parent_of d e of None \<Rightarrow> [] | Some p \<Rightarrow> p # ancestors d p)"
  by pat_completeness auto
termination
  by (relation "measure (\<lambda>(d, e). e)") (auto simp: parent_of_def split: option.splits if_splits)

declare ancestors.simps [simp del]

definition descendants :: "document \<Rightarrow> nat \<Rightarrow> nat list" where
  "descendants d e = filter (\<lambda>j. e \<in> set (ancestors d j)) [0..<length d]"

text \<open>\<open>element.get_attribute(name)\<close>, \<open>None\<close> when the attribute is absent; \<open>element.text\<close>.\<close>

definition get_attribute :: "document \<Rightarrow> nat \<Rightarrow> string \<Rightarrow> pystr option" where
  "get_attribute d e name = map_of (n_attrs (d ! e)) name"

definition attr_or_empty :: "document \<Rightarrow> nat \<Rightarrow> string \<Rightarrow> pystr" where
  "attr_or_empty d e name = (case get_attribute d e name of None \<Rightarrow> [] | Some v \<Rightarrow> v)"

definition text_of :: "document \<Rightarrow> nat \<Rightarrow> pystr" where
  "text_of d e = n_text (d ! e)"

text \<open>
  \<open>By.CLASS_NAME\<close> is the CSS class selector: the class attribute, cut at HTML white
  space, has the name among its tokens. The search context is the whole document for the
  driver (\<open>None\<close>) and the descendants of an element otherwise.
\<close>

definition html_space :: "nat \<Rightarrow> bool" where
  "html_space c = (c = 32 \<or> c = 9 \<or> c = 10 \<or> c = 12 \<or> c = 13)"

definition has_class :: "document \<Rightarrow> pystr \<Rightarrow> nat \<Rightarrow> bool" where
  "has_class d c e = (c \<in> set (split_on html_space (attr_or_empty d e ''class'')))"

definition scope :: "document \<Rightarrow> nat option \<Rightarrow> nat list" where
  "scope d ctx = (case ctx of None \<Rightarrow> [0..<length d] | Some e \<Rightarrow> descendants d e)"

definition find_elements_by_class :: "document \<Rightarrow> nat option \<Rightarrow> pystr \<Rightarrow> nat list" where
  "find_elements_by_class d ctx c = filter (has_class d c) (scope d ctx)"

text \<open>\<open>find_element\<close>: the first match, \<open>None\<close> for NoSuchElementException.\<close>

definition first_of :: "'a list \<Rightarrow> 'a option" where
  "first_of xs = (case xs of [] \<Rightarrow> None | x # _ \<Rightarrow> Some x)"

definition find_element_by_class :: "document \<Rightarrow> nat option \<Rightarrow> pystr \<Rightarrow> nat option" where
  "find_element_by_class d ctx c = first_of (find_elements_by_class d ctx c)"

text \<open>The XPath queries of the scripts.\<close>

definition in_owner_block :: "document \<Rightarrow> nat \<Rightarrow> bool" where
  \<comment> \<open>\<open>./ancestor::div[contains(@class, 'CDe7pd')]\<close> finds an element\<close>
  "in_owner_block d e =
     list_ex (\<lambda>a. n_tag (d ! a) = ''div'' \<and> py_in (py ''CDe7pd'') (attr_or_empty d a ''class''))
       (ancestors d e)"

definition nearest_identified :: "document \<Rightarrow> nat \<Rightarrow> nat option" where
  \<comment> \<open>\<open>./ancestor::*[@data-review-id][1]\<close>\<close>
  "nearest_identified d e =
     first_of (filter (\<lambda>a. get_attribute d a ''data-review-id'' \<noteq> None) (ancestors d e))"

definition nearest_identified_div :: "document \<Rightarrow> nat \<Rightarrow> nat option" where
  \<comment> \<open>\<open>./ancestor::div[@data-review-id][1]\<close>\<close>
  "nearest_identified_div d e =
     first_of (filter (\<lambda>a. n_tag (d ! a) = ''div'' \<and> get_attribute d a ''data-review-id'' \<noteq> None)
       (ancestors d e))"

definition review_cards :: "document \<Rightarrow> nat list" where
  \<comment> \<open>\<open>//div[@data-review-id]\<close>\<close>
  "review_cards d =
     filter (\<lambda>e. n_tag (d ! e) = ''div'' \<and> get_attribute d e ''data-review-id'' \<noteq> None) [0..<length d]"

definition jslog_subtree :: "document \<Rightarrow> nat \<Rightarrow> nat option" where
  \<comment> \<open>\<open>.//div[@jslog="127691"]\<close>\<close>
  "jslog_subtree d rcard =
     first_of (filter (\<lambda>e. n_tag (d ! e) = ''div'' \<and> get_attribute d e ''jslog'' = Some (py ''127691''))
       (descendants d rcard))"

definition image_buttons :: "document \<Rightarrow> nat \<Rightarrow> nat list" where
  \<comment> \<open>\<open>.//div[contains(@class, "KtCyie")]/button[contains(@style, "background-image")]\<close>\<close>
  "image_buttons d rcard =
     filter (\<lambda>b. n_tag (d ! b) = ''button''
                \<and> py_in (py ''background-image'') (attr_or_empty d b ''style'')
                \<and> (case parent_of d b of None \<Rightarrow> False
                    | Some p \<Rightarrow> n_tag (d ! p) = ''div''
                              \<and> py_in (py ''KtCyie'') (attr_or_empty d p ''class'')
                              \<and> rcard \<in> set (ancestors d p)))
       [0..<length d]"

section \<open>The incremental loader\<close>

text \<open>
  The scroll loop of \<open>main\<close>. \<open>rendered k\<close> is the number of review cards the document
  shows after the \<open>k\<close>-th scroll and its settle delay. The result is \<open>scroll_attempts\<close>.
\<close>

definition max_scrolls :: nat where
  "max_scrolls = 60"

function scroll_loop :: "(nat \<Rightarrow> nat) \<Rightarrow> nat \<Rightarrow> nat \<Rightarrow> nat \<Rightarrow> nat" where
  "scroll_loop rendered scroll_attempts last_review_count stable_scrolls =
     (if scroll_attempts < max_scrolls \<and> stable_scrolls < 3 then
        let n = rendered (scroll_attempts + 1);
            stable_scrolls' = (if n = last_review_count then stable_scrolls + 1 else 0)
        in scroll_loop rendered (scroll_attempts + 1) n stable_scrolls'
      else scroll_attempts)"
  by pat_completeness auto
termination
  by (relation "measure (\<lambda>(rendered, a, l, s). max_scrolls - a)") auto

declare scroll_loop.simps [simp del]

text \<open>
  The words of the specification: the count after round \<open>k\<close> (0 before the first round),
  the number of consecutive rounds without growth that end at round \<open>k\<close>, and "the count
  has been unchanged for three consecutive rounds" at round \<open>m\<close>.
\<close>

definition count_after :: "(nat \<Rightarrow> nat) \<Rightarrow> nat \<Rightarrow> nat" where
  "count_after rendered k = (if k = 0 then 0 else rendered k)"

fun stable_streak :: "(nat \<Rightarrow> nat) \<Rightarrow> nat \<Rightarrow> nat" where
  "stable_streak rendered 0 = 0"
| "stable_streak rendered (Suc k) =
     (if count_after rendered (Suc k) = count_after rendered k
      then stable_streak rendered k + 1 else 0)"

definition three_stable :: "(nat \<Rightarrow> nat) \<Rightarrow> nat \<Rightarrow> bool" where
  "three_stable rendered m =
     (3 \<le> m \<and> count_after rendered m = count_after rendered (m - 1)
            \<and> count_after rendered (m - 1) = count_after rendered (m - 2)
            \<and> count_after rendered (m - 2) = count_after rendered (m - 3))"

text \<open>A listing that shows ten more cards in each of the first four rounds and then stops.\<close>

definition grow4 :: "nat \<Rightarrow> nat" where
  "grow4 k = 10 * min k 4"

section \<open>The extraction script, version 1.7\<close>

text \<open>
  The model reads one snapshot of the document, so the only driver call that fails is a
  \<open>find_element\<close> that finds nothing. Writing to the debug log is taken to succeed and is
  not modelled. Every \<open>raise\<close> that leaves \<open>main\<close> is a value of \<open>error\<close>;
  \<open>PageLoadTimeout\<close> stands for the handled time-out of the readiness wait, after which
  \<open>main\<close> returns without records.
\<close>

datatype error =
  PageLoadTimeout | UnboundLocalError | NoSuchElementException
  | TypeError | AttributeError | ValueError | OverflowError

subsection \<open>\<open>clean_final_text\<close>\<close>

definition owner_phrase :: pystr where
  "owner_phrase = py ''response from the owner''"

definition clean_final_text :: "ucd \<Rightarrow> pystr \<Rightarrow> pystr" where
  "clean_final_text U raw_text =
     (if raw_text = [] then []
      else let lowered = py_lower U raw_text
           in if py_in owner_phrase lowered then [] else py_strip U raw_text)"

subsection \<open>\<open>parse_relative_date\<close>\<close>

text \<open>
  A date is its proleptic Gregorian ordinal (\<open>date.toordinal()\<close>, 1 for 0001-01-01), and
  \<open>today\<close> is the ordinal of the current day. \<open>(today - timedelta(days=n)).date()\<close> raises
  OverflowError when \<open>n\<close> exceeds 999999999 or the result would lie before ordinal 1.
  The empty string that the function returns for "no date" is \<open>None\<close>.
\<close>

definition date_minus :: "int \<Rightarrow> nat \<Rightarrow> error + int option" where
  "date_minus today n =
     (if 999999999 < int n \<or> today - int n < 1 then Inl OverflowError
      else Inr (Some (today - int n)))"

definition parse_relative_date :: "ucd \<Rightarrow> int \<Rightarrow> pystr \<Rightarrow> error + int option" where
  "parse_relative_date U today date_text =
     (case search_digits U date_text of
        None \<Rightarrow> Inr None
      | Some m \<Rightarrow>
          (case py_int U m of
             None \<Rightarrow> Inl ValueError
           | Some num \<Rightarrow>
               if py_in (py ''day'') date_text then date_minus today num
               else if py_in (py ''week'') date_text then date_minus today (7 * num)
               else if py_in (py ''month'') date_text then date_minus today (30 * num)
               else if py_in (py ''year'') date_text then date_minus today (365 * num)
               else Inr None))"

subsection \<open>\<open>is_valid_comment\<close>\<close>

definition is_valid_comment :: "ucd \<Rightarrow> pystr \<Rightarrow> bool" where
  "is_valid_comment U text =
     (if text = [] \<or> length (py_strip U text) < 5 then False
      else let lower = py_lower U text in
        if py_in owner_phrase lower then False
        else let cleaned = filter (re_word U) text in
          if cleaned = [] \<or> length cleaned < 3 then False
          else if py_endswith (py_strip U text) [8230] \<and> \<not> list_ex ascii_letter text then False
          else True)"

subsection \<open>The strategy chain for the review text\<close>

text \<open>
  \<open>source\<close> is the provenance string of the script. \<open>ex_attempted\<close> is not a variable of
  the script: it lists the strategy blocks that were entered, in the order of entry.
\<close>

datatype source = src_none | src_wiI7pd | src_rfdo_global | src_structural | src_jslog127691

datatype strategy = Primary | TaggedScan | StructuralScan | NarrowFallback

record extraction =
  ex_text :: pystr
  ex_source :: source
  ex_attempted :: "strategy list"

text \<open>Strategy 1: the first \<open>wiI7pd\<close> span of the card that is not inside an owner block.\<close>

definition primary_candidate :: "document \<Rightarrow> nat \<Rightarrow> pystr" where
  "primary_candidate d rcard =
     (let wi_spans = find_elements_by_class d (Some rcard) (py ''wiI7pd'')
      in case filter (\<lambda>span. \<not> in_owner_block d span) wi_spans of
           [] \<Rightarrow> []
         | span # _ \<Rightarrow> text_of d span)"

definition primary_scan :: "ucd \<Rightarrow> document \<Rightarrow> nat \<Rightarrow> extraction" where
  "primary_scan U d rcard =
     (let temp_text = primary_candidate d rcard
      in if is_valid_comment U temp_text
         then \<lparr> ex_text = temp_text, ex_source = src_wiI7pd, ex_attempted = [Primary] \<rparr>
         else \<lparr> ex_text = [], ex_source = src_none, ex_attempted = [Primary] \<rparr>)"

text \<open>Strategy 2: the \<open>RfDO5c\<close> spans of the whole document that belong to this card.\<close>

definition fallback_spans :: "document \<Rightarrow> nat \<Rightarrow> nat list" where
  "fallback_spans d rcard =
     (let review_id = get_attribute d rcard ''data-review-id'';
          all_rfdo_spans = find_elements_by_class d None (py ''RfDO5c'')
      in filter (\<lambda>span.
            case nearest_identified d span of
              None \<Rightarrow> False
            | Some parent \<Rightarrow>
                get_attribute d parent ''data-review-id'' = review_id \<and> \<not> in_owner_block d span)
          all_rfdo_spans)"

definition tagged_scan_text :: "ucd \<Rightarrow> document \<Rightarrow> nat \<Rightarrow> pystr" where
  "tagged_scan_text U d rcard =
     py_join (py '' '')
       (map (text_of d)
         (filter (\<lambda>span. py_strip U (text_of d span) \<noteq> []
                        \<and> \<not> py_in (py ''RfDO5c'') (attr_or_empty d span ''class''))
           (fallback_spans d rcard)))"

definition tagged_scan :: "ucd \<Rightarrow> document \<Rightarrow> nat \<Rightarrow> extraction \<Rightarrow> extraction" where
  "tagged_scan U d rcard st =
     \<lparr> ex_text = tagged_scan_text U d rcard, ex_source = src_rfdo_global,
       ex_attempted = ex_attempted st @ [TaggedScan] \<rparr>"

text \<open>
  Strategy 3: the texts of all elements of the card's container outside the owner block,
  then the noise filter. \<open>lowercase_ratio < 0.05\<close> compares a quotient of two integers
  with 1/20, written here without division.
\<close>

definition junk_keywords :: "pystr list" where
  "junk_keywords = [[58836], [59448], py ''New'', py ''Updated'', py ''stars'', py ''reviews'']"

definition keep_char :: "ucd \<Rightarrow> nat \<Rightarrow> bool" where
  \<comment> \<open>the characters that \<open>re.sub(r"[^a-zA-Z0-9\s.,!?']", "", text)\<close> keeps\<close>
  "keep_char U c =
     (ascii_letter c \<or> ascii_digit c \<or> py_isspace U c
      \<or> c = 46 \<or> c = 44 \<or> c = 33 \<or> c = 63 \<or> c = 39)"

definition found_texts :: "ucd \<Rightarrow> document \<Rightarrow> nat \<Rightarrow> pystr list" where
  "found_texts U d container =
     (let owner_block = find_element_by_class d (Some container) (py ''CDe7pd'')
      in filter (\<lambda>elem_text. elem_text \<noteq> [])
           (map (\<lambda>elem. py_strip U (text_of d elem))
             (filter (\<lambda>elem. case owner_block of
                                None \<Rightarrow> True
                              | Some ob \<Rightarrow> ob \<notin> set (elem # ancestors d elem))
               (descendants d container))))"

definition noise_filter :: "ucd \<Rightarrow> pystr \<Rightarrow> pystr" where
  "noise_filter U text =
     (let cleaned_text = filter (keep_char U) text;
          word_count = length (py_split U cleaned_text);
          lowercase_count = length (filter (py_islower U) cleaned_text);
          junk_detected = list_ex (\<lambda>kw. py_in kw text) junk_keywords
      in if word_count < 5 \<or> 20 * lowercase_count < length cleaned_text + 1 \<or> junk_detected
         then [] else text)"

definition structural_scan :: "ucd \<Rightarrow> document \<Rightarrow> nat \<Rightarrow> extraction \<Rightarrow> extraction" where
  "structural_scan U d rcard st =
     (let st' = st \<lparr> ex_attempted := ex_attempted st @ [StructuralScan] \<rparr>
      in case find_element_by_class d (Some rcard) (py ''kvMYJc'') of
           None \<Rightarrow> st'
         | Some rating_el \<Rightarrow>
             (case nearest_identified_div d rating_el of
                None \<Rightarrow> st'
              | Some container \<Rightarrow>
                  (let texts = found_texts U d container
                   in if texts = [] then st' \<lparr> ex_text := [] \<rparr>
                      else st' \<lparr> ex_text := noise_filter U (py_join (py '' '') texts),
                               ex_source := src_structural \<rparr>)))"

text \<open>Strategy 4: the \<open>RfDO5c\<close> spans under the \<open>jslog="127691"\<close> container.\<close>

definition narrow_fallback :: "ucd \<Rightarrow> document \<Rightarrow> nat \<Rightarrow> extraction \<Rightarrow> extraction" where
  "narrow_fallback U d rcard st =
     (let st' = st \<lparr> ex_attempted := ex_attempted st @ [NarrowFallback] \<rparr>
      in case jslog_subtree d rcard of
           None \<Rightarrow> st'
         | Some review_subtree \<Rightarrow>
             (let targeted_spans = find_elements_by_class d (Some review_subtree) (py ''RfDO5c'');
                  extracted =
                    map (\<lambda>s. py_strip U (text_of d s))
                      (filter (\<lambda>s. py_strip U (text_of d s) \<noteq> []
                                  \<and> \<not> py_in (py ''RfDO5c'') (attr_or_empty d s ''class''))
                        targeted_spans)
              in if extracted \<noteq> []
                 then st' \<lparr> ex_text := py_join (py '' '') extracted, ex_source := src_jslog127691 \<rparr>
                 else st'))"

text \<open>The chain, for the card at position \<open>i\<close> of the collected entries.\<close>

definition extract_text :: "ucd \<Rightarrow> document \<Rightarrow> nat \<Rightarrow> nat \<Rightarrow> extraction" where
  "extract_text U d i rcard =
     (if i < 29 then primary_scan U d rcard
      else
        let st1 = primary_scan U d rcard in
        if ex_text st1 \<noteq> [] then st1
        else
          let st2 = tagged_scan U d rcard st1;
              st3 = (if ex_text st2 = [] then structural_scan U d rcard st2 else st2);
              st4 = (if ex_text st3 = [] then narrow_fallback U d rcard st3 else st3)
          in st4)"

subsection \<open>Images, like count, tags\<close>

text \<open>
  \<open>net url\<close> says whether \<open>urlretrieve\<close> succeeds for the URL. The second component of
  the result lists every call of \<open>urlretrieve\<close> with its URL and file name.
\<close>

definition image_filename :: "nat \<Rightarrow> nat \<Rightarrow> pystr" where
  "image_filename i idx = py ''img_'' @ fmt_03d (i + 1) @ py ''_'' @ dec_digits (idx + 1) @ py ''.jpg''"

definition image_url :: "pystr \<Rightarrow> pystr" where
  "image_url style_attr =
     (if py_in (py ''background-image'') style_attr
      then (case search_url style_attr of None \<Rightarrow> [] | Some u \<Rightarrow> u)
      else [])"

definition image_step ::
  "(pystr \<Rightarrow> bool) \<Rightarrow> document \<Rightarrow> nat \<Rightarrow> pystr list \<times> (pystr \<times> pystr) list \<Rightarrow> nat \<times> nat
     \<Rightarrow> pystr list \<times> (pystr \<times> pystr) list" where
  "image_step net d i acc p =
     (case acc of (image_files, fetched) \<Rightarrow>
      case p of (idx, img_el) \<Rightarrow>
        (case get_attribute d img_el ''style'' of
           None \<Rightarrow> (image_files, fetched)
         | Some style_attr \<Rightarrow>
             (let img_url = image_url style_attr
              in if img_url \<noteq> [] \<and> py_in (py ''googleusercontent'') img_url then
                   (if net img_url
                    then (image_files @ [image_filename i idx],
                          fetched @ [(img_url, image_filename i idx)])
                    else (image_files, fetched @ [(img_url, image_filename i idx)]))
                 else (image_files, fetched))))"

definition harvest_images ::
  "(pystr \<Rightarrow> bool) \<Rightarrow> document \<Rightarrow> nat \<Rightarrow> nat \<Rightarrow> pystr list \<times> (pystr \<times> pystr) list" where
  "harvest_images net d i rcard =
     foldl (image_step net d i) ([], []) (enumerate 0 (image_buttons d rcard))"

definition read_like_count :: "ucd \<Rightarrow> document \<Rightarrow> nat \<Rightarrow> nat" where
  "read_like_count U d rcard =
     (case find_element_by_class d (Some rcard) (py ''pkWtMe'') of
        None \<Rightarrow> 0
      | Some like_span \<Rightarrow>
          (let like_text = py_strip U (text_of d like_span)
           in if py_isdigit U like_text
              then (case py_int U like_text of None \<Rightarrow> 0 | Some n \<Rightarrow> n)
              else 0))"

record tag_state =
  current_label :: pystr
  services :: "pystr list"
  positive_tags :: "pystr list"
  negative_tags :: "pystr list"
  price_tags :: "pystr list"

definition tag_step :: "ucd \<Rightarrow> tag_state \<Rightarrow> pystr \<Rightarrow> tag_state" where
  "tag_step U ts raw =
     (let tag_text = py_strip U raw in
      if py_lower U tag_text \<in> set [py ''services'', py ''positive'', py ''negative'', py ''price'']
      then ts \<lparr> current_label := py_lower U tag_text \<rparr>
      else if current_label ts = py ''services'' then ts \<lparr> services := services ts @ [tag_text] \<rparr>
      else if current_label ts = py ''positive'' then ts \<lparr> positive_tags := positive_tags ts @ [tag_text] \<rparr>
      else if current_label ts = py ''negative'' then ts \<lparr> negative_tags := negative_tags ts @ [tag_text] \<rparr>
      else if current_label ts = py ''price'' then ts \<lparr> price_tags := price_tags ts @ [tag_text] \<rparr>
      else ts)"

definition bucket_tags :: "ucd \<Rightarrow> document \<Rightarrow> nat \<Rightarrow> tag_state" where
  "bucket_tags U d rcard =
     foldl (tag_step U)
       \<lparr> current_label = [], services = [], positive_tags = [], negative_tags = [], price_tags = [] \<rparr>
       (map (text_of d) (find_elements_by_class d (Some rcard) (py ''RfDO5c'')))"

subsection \<open>One pass of the loop over the collected entries\<close>

text \<open>
  The exported row. Version 1.7 adds two columns to the row of version 1.5, so its record
  extends the other. \<open>DateParsed\<close> is \<open>None\<close> for the empty string.
\<close>

record review_record_v15 =
  ReviewUID :: pystr
  Reviewer :: pystr
  Rating :: pystr
  RatingValue :: nat
  DateRaw :: pystr
  DateParsed :: "int option"
  DateParseSuccess :: bool
  Review :: pystr
  ImageCount :: nat
  ImageFiles :: pystr
  LikeCount :: nat
  Services :: pystr
  PositiveTags :: pystr
  NegativeTags :: pystr
  PriceTags :: pystr

record review_record = review_record_v15 +
  OwnerResponded :: bool
  ClientName :: pystr

text \<open>\<open>int(re.search(r'\d', rating).group())\<close>, with \<open>rating\<close> the \<open>aria-label\<close> or \<open>None\<close>.\<close>

definition numeric_rating :: "ucd \<Rightarrow> pystr option \<Rightarrow> error + nat" where
  "numeric_rating U rating =
     (case rating of
        None \<Rightarrow> Inl TypeError
      | Some label \<Rightarrow>
          (case search_digit U label of
             None \<Rightarrow> Inl AttributeError
           | Some m \<Rightarrow> (case py_int U m of None \<Rightarrow> Inl ValueError | Some v \<Rightarrow> Inr v)))"

text \<open>
  The body of \<open>for i, card in enumerate(unique_reviews.values())\<close>. \<open>n_data\<close> is
  \<open>len(data)\<close> when the pass starts. The result is the appended row and the calls of
  \<open>urlretrieve\<close> of this pass, or the exception that leaves the loop.
\<close>

definition process_entry ::
  "ucd \<Rightarrow> int \<Rightarrow> (pystr \<Rightarrow> bool) \<Rightarrow> pystr \<Rightarrow> document \<Rightarrow> nat \<Rightarrow> nat \<Rightarrow> nat
     \<Rightarrow> error + (review_record \<times> (pystr \<times> pystr) list)" where
  "process_entry U today net business_name d n_data i rcard =
     (case find_element_by_class d (Some rcard) (py ''d4r55'') of
        None \<Rightarrow> Inl NoSuchElementException
      | Some reviewer_el \<Rightarrow>
     (case find_element_by_class d (Some rcard) (py ''kvMYJc'') of
        None \<Rightarrow> Inl NoSuchElementException
      | Some rating_el \<Rightarrow>
     (let reviewer = text_of d reviewer_el;
          rating = get_attribute d rating_el ''aria-label'';
          ex = extract_text U d i rcard
      in
     (case find_element_by_class d (Some rcard) (py ''rsqaWe'') of
        None \<Rightarrow> Inl NoSuchElementException
      | Some date_el \<Rightarrow>
     (let date = text_of d date_el in
     (case numeric_rating U rating of
        Inl e \<Rightarrow> Inl e
      | Inr rating_value \<Rightarrow>
     (case parse_relative_date U today date of
        Inl e \<Rightarrow> Inl e
      | Inr parsed_date \<Rightarrow>
     (let images = harvest_images net d i rcard;
          like_count = read_like_count U d rcard;
          tags = bucket_tags U d rcard;
          owner_responded = (find_element_by_class d (Some rcard) (py ''CDe7pd'') \<noteq> None)
      in Inr (\<lparr> ReviewUID = py ''R'' @ fmt_03d (n_data + 1),
                 Reviewer = reviewer,
                 Rating = (case rating of None \<Rightarrow> [] | Some label \<Rightarrow> label),
                 RatingValue = rating_value,
                 DateRaw = date,
                 DateParsed = parsed_date,
                 DateParseSuccess = (parsed_date \<noteq> None),
                 Review = clean_final_text U (ex_text ex),
                 ImageCount = length (fst images),
                 ImageFiles = py_join (py '', '') (fst images),
                 LikeCount = like_count,
                 Services = py_join (py '', '') (services tags),
                 PositiveTags = py_join (py '', '') (positive_tags tags),
                 NegativeTags = py_join (py '', '') (negative_tags tags),
                 PriceTags = py_join (py '', '') (price_tags tags),
                 OwnerResponded = owner_responded,
                 ClientName = business_name \<rparr>,
               snd images)))))))))"

section \<open>Collection and the whole run\<close>

text \<open>
  \<open>unique_reviews\<close> is a dictionary from review id to card; a Python dictionary keeps its
  keys in the order of insertion, so it is a list of pairs without repeated keys.
\<close>

definition collect_step ::
  "document \<Rightarrow> (pystr option \<times> nat) list \<Rightarrow> nat \<Rightarrow> (pystr option \<times> nat) list" where
  "collect_step d unique_reviews rcard =
     (let review_id = get_attribute d rcard ''data-review-id''
      in if review_id \<notin> set (map fst unique_reviews)
         then unique_reviews @ [(review_id, rcard)]
         else unique_reviews)"

definition collect :: "document \<Rightarrow> nat list \<Rightarrow> (pystr option \<times> nat) list" where
  "collect d cards = foldl (collect_step d) [] cards"

text \<open>The loop over the entries: the rows and the image fetches, or the first exception.\<close>

fun process_all ::
  "ucd \<Rightarrow> int \<Rightarrow> (pystr \<Rightarrow> bool) \<Rightarrow> pystr \<Rightarrow> document \<Rightarrow> nat \<Rightarrow> nat list
     \<Rightarrow> review_record list \<Rightarrow> (pystr \<times> pystr) list
     \<Rightarrow> error + (review_record list \<times> (pystr \<times> pystr) list)" where
  "process_all U today net business_name d i [] data fetched = Inr (data, fetched)"
| "process_all U today net business_name d i (rcard # rest) data fetched =
     (case process_entry U today net business_name d (length data) i rcard of
        Inl e \<Rightarrow> Inl e
      | Inr (row, fs) \<Rightarrow>
          process_all U today net business_name d (i + 1) rest (data @ [row]) (fetched @ fs))"

text \<open>
  What \<open>main\<close> sees of the page: whether the title appears within the readiness wait,
  whether the scroll container is found, the number of cards after each scroll, and the
  snapshot that is read once scrolling and the clicks on the "More" buttons are over.
  When the container is not found, the handler reports the error and \<open>main\<close> goes on to
  the loop over \<open>unique_reviews\<close>, which was never assigned.
\<close>

record page =
  pg_ready :: bool
  pg_container :: bool
  pg_rendered :: "nat \<Rightarrow> nat"
  pg_final :: document

definition run ::
  "ucd \<Rightarrow> int \<Rightarrow> (pystr \<Rightarrow> bool) \<Rightarrow> pystr \<Rightarrow> page
     \<Rightarrow> error + (review_record list \<times> (pystr \<times> pystr) list)" where
  "run U today net business_name pg =
     (if \<not> pg_ready pg then Inl PageLoadTimeout
      else if \<not> pg_container pg then Inl UnboundLocalError
      else
        let scroll_attempts = scroll_loop (pg_rendered pg) 0 0 0;
            unique_reviews = collect (pg_final pg) (review_cards (pg_final pg))
        in process_all U today net business_name (pg_final pg) 0 (map snd unique_reviews) [] [])"

section \<open>The extraction script, version 1.5\<close>



























section \<open>Notions used in the statements and proofs\<close>

text \<open>The review id that the collector reads from a card.\<close>

definition review_id_of :: "document \<Rightarrow> nat \<Rightarrow> pystr option" where
  "review_id_of d rcard = get_attribute d rcard ''data-review-id''"

text \<open>
  For the proof that stripping cannot bring the owner phrase back: \<open>ascii_mask\<close> sends every
  code point from 128 on to one value, and \<open>lower_char\<close> lowers a character without its
  context. Under \<open>ascii_mask\<close> the two variants of the lowered sigma are the same.
\<close>

definition ascii_mask :: "nat \<Rightarrow> nat" where
  "ascii_mask x = (if x < 128 then x else 128)"

definition lower_char :: "ucd \<Rightarrow> nat \<Rightarrow> nat list" where
  "lower_char U c =
     (if c < 128 then (if 65 \<le> c \<and> c \<le> 90 then [c + 32] else [c])
      else if c = 931 then [963]
      else u_tolower U c)"

text \<open>The test of the image filter on the extracted URL.\<close>

definition accepted_url :: "pystr \<Rightarrow> bool" where
  "accepted_url u = (u \<noteq> [] \<and> py_in (py ''googleusercontent'') u)"

section \<open>Example documents\<close>

definition el :: "string \<Rightarrow> (string \<times> string) list \<Rightarrow> string \<Rightarrow> nat option \<Rightarrow> node" where
  "el tg attrs txt par =
     \<lparr> n_tag = tg, n_attrs = map (\<lambda>(k, v). (k, py v)) attrs, n_text = py txt, n_parent = par \<rparr>"

text \<open>A listing with three cards, the third a second rendering of the first review.\<close>

definition doc_listing :: document where
  "doc_listing =
     [ el ''div'' [(''data-review-id'', ''a'')] [] None,
       el ''div'' [(''class'', ''d4r55'')] ''Ann'' (Some 0),
       el ''span'' [(''class'', ''kvMYJc''), (''aria-label'', ''5 stars'')] [] (Some 0),
       el ''span'' [(''class'', ''rsqaWe'')] ''3 weeks ago'' (Some 0),
       el ''span'' [(''class'', ''wiI7pd'')] ''Great food and service'' (Some 0),
       el ''div'' [(''data-review-id'', ''b'')] [] None,
       el ''div'' [(''class'', ''d4r55'')] ''Bob'' (Some 5),
       el ''span'' [(''class'', ''kvMYJc''), (''aria-label'', ''4 stars'')] [] (Some 5),
       el ''span'' [(''class'', ''rsqaWe'')] ''a year ago'' (Some 5),
       el ''span'' [(''class'', ''wiI7pd'')] ''Nice place, will come back'' (Some 5),
       el ''div'' [(''data-review-id'', ''a'')] [] None,
       el ''div'' [(''class'', ''d4r55'')] ''Ann'' (Some 10),
       el ''span'' [(''class'', ''kvMYJc''), (''aria-label'', ''5 stars'')] [] (Some 10),
       el ''span'' [(''class'', ''rsqaWe'')] ''3 weeks ago'' (Some 10) ]"

definition page_listing :: page where
  "page_listing =
     \<lparr> pg_ready = True, pg_container = True, pg_rendered = (\<lambda>k. 3), pg_final = doc_listing \<rparr>"

text \<open>The rows exported for it on 2026-11-04 (ordinal 739924) for the business "Cafe".\<close>

definition row_ann :: review_record where
  "row_ann =
     \<lparr> ReviewUID = py ''R001'', Reviewer = py ''Ann'', Rating = py ''5 stars'', RatingValue = 5,
       DateRaw = py ''3 weeks ago'', DateParsed = Some 739903, DateParseSuccess = True,
       Review = py ''Great food and service'', ImageCount = 0, ImageFiles = [], LikeCount = 0,
       Services = [], PositiveTags = [], NegativeTags = [], PriceTags = [],
       OwnerResponded = False, ClientName = py ''Cafe'' \<rparr>"

definition row_bob :: review_record where
  "row_bob =
     \<lparr> ReviewUID = py ''R002'', Reviewer = py ''Bob'', Rating = py ''4 stars'', RatingValue = 4,
       DateRaw = py ''a year ago'', DateParsed = None, DateParseSuccess = False,
       Review = py ''Nice place, will come back'', ImageCount = 0, ImageFiles = [], LikeCount = 0,
       Services = [], PositiveTags = [], NegativeTags = [], PriceTags = [],
       OwnerResponded = False, ClientName = py ''Cafe'' \<rparr>"

text \<open>
  A card without a \<open>wiI7pd\<close> span whose only text-bearing tagged node is an \<open>RfDO5c\<close>
  span outside any owner block.
\<close>

definition doc_tagged :: document where
  "doc_tagged =
     [ el ''div'' [(''data-review-id'', ''c'')] [] None,
       el ''div'' [(''class'', ''d4r55'')] ''Cy'' (Some 0),
       el ''span'' [(''class'', ''kvMYJc''), (''aria-label'', ''5 stars'')] [] (Some 0),
       el ''span'' [(''class'', ''rsqaWe'')] ''2 days ago'' (Some 0),
       el ''span'' [(''class'', ''RfDO5c'')] ''Great service'' (Some 0) ]"


text \<open>A listing of two cards, the second with a rating label that has no digit.\<close>

definition doc_unrated :: document where
  "doc_unrated =
     [ el ''div'' [(''data-review-id'', ''a'')] [] None,
       el ''div'' [(''class'', ''d4r55'')] ''Ann'' (Some 0),
       el ''span'' [(''class'', ''kvMYJc''), (''aria-label'', ''5 stars'')] [] (Some 0),
       el ''span'' [(''class'', ''rsqaWe'')] ''3 weeks ago'' (Some 0),
       el ''span'' [(''class'', ''wiI7pd'')] ''Great food and service'' (Some 0),
       el ''div'' [(''data-review-id'', ''f'')] [] None,
       el ''div'' [(''class'', ''d4r55'')] ''Flo'' (Some 5),
       el ''span'' [(''class'', ''kvMYJc''), (''aria-label'', ''Rated'')] [] (Some 5),
       el ''span'' [(''class'', ''rsqaWe'')] ''2 days ago'' (Some 5),
       el ''span'' [(''class'', ''wiI7pd'')] ''Loved the desserts here'' (Some 5) ]"

definition page_unrated :: page where
  "page_unrated =
     \<lparr> pg_ready = True, pg_container = True, pg_rendered = (\<lambda>k. 2), pg_final = doc_unrated \<rparr>"

text \<open>
  A card with three photo buttons: one on the image host, one on another host with the
  host's name in its path, one on another host.
\<close>

definition doc_photos :: document where
  "doc_photos =
     [ el ''div'' [(''data-review-id'', ''g'')] [] None,
       el ''div'' [(''class'', ''KtCyie'')] [] (Some 0),
       el ''button'' [(''style'', ''background-image: url(https://lh3.googleusercontent.com/p1);'')]
          [] (Some 1),
       el ''button'' [(''style'', ''background-image: url(https://example.com/googleusercontent/p2);'')]
          [] (Some 1),
       el ''button'' [(''style'', ''background-image: url(https://example.com/p3);'')]
          [] (Some 1) ]"

section \<open>Properties of the loader\<close>

lemma streak_three: "3 \<le> stable_streak rendered m \<longleftrightarrow> three_stable rendered m"
proof -
  consider "m = 0" | "m = 1" | "m = 2" | k where "m = Suc (Suc (Suc k))"
    by (metis One_nat_def Suc_1 not0_implies_Suc)
  then show ?thesis
  proof cases
    case 1 then show ?thesis by (simp add: three_stable_def)
  next
    case 2 then show ?thesis by (simp add: three_stable_def)
  next
    case 3 then show ?thesis by (simp add: three_stable_def numeral_2_eq_2)
  next
    case 4 then show ?thesis by (simp add: three_stable_def)
  qed
qed

lemma scroll_loop_stop:
  "\<not> (a < max_scrolls \<and> s < 3) \<Longrightarrow> scroll_loop rendered a l s = a"
  by (subst scroll_loop.simps) auto

lemma scroll_loop_step:
  "a < max_scrolls \<Longrightarrow> s < 3 \<Longrightarrow>
   scroll_loop rendered a l s =
     scroll_loop rendered (Suc a) (rendered (Suc a)) (if rendered (Suc a) = l then Suc s else 0)"
  by (subst scroll_loop.simps) (simp add: Let_def)

lemma scroll_loop_inv:
  "k = max_scrolls - a \<Longrightarrow> a \<le> max_scrolls \<Longrightarrow>
   l = count_after rendered a \<Longrightarrow> s = stable_streak rendered a \<Longrightarrow>
      a \<le> scroll_loop rendered a l s \<and> scroll_loop rendered a l s \<le> max_scrolls
      \<and> (scroll_loop rendered a l s < max_scrolls
           \<longrightarrow> 3 \<le> stable_streak rendered (scroll_loop rendered a l s))
      \<and> (\<forall>m. a \<le> m \<and> m < scroll_loop rendered a l s \<longrightarrow> stable_streak rendered m < 3)"
proof (induction k arbitrary: a l s)
  case 0
  then have "\<not> (a < max_scrolls \<and> s < 3)" by simp
  then have eq: "scroll_loop rendered a l s = a" by (rule scroll_loop_stop)
  from 0 show ?case unfolding eq by simp
next
  case (Suc k)
  show ?case
  proof (cases "s < 3")
    case False
    then have "\<not> (a < max_scrolls \<and> s < 3)" by simp
    then have eq: "scroll_loop rendered a l s = a" by (rule scroll_loop_stop)
    from False Suc.prems show ?thesis unfolding eq by simp
  next
    case True
    from Suc.prems have lt: "a < max_scrolls" by simp
    define n where "n = rendered (Suc a)"
    define s' where "s' = (if n = l then Suc s else 0)"
    have eq: "scroll_loop rendered a l s = scroll_loop rendered (Suc a) n s'"
      using True lt by (simp add: scroll_loop_step n_def s'_def)
    have p0: "k = max_scrolls - Suc a" using Suc.prems by simp
    have p1: "Suc a \<le> max_scrolls" using lt by simp
    have p2: "n = count_after rendered (Suc a)" by (simp add: count_after_def n_def)
    have p3: "s' = stable_streak rendered (Suc a)"
      using Suc.prems p2 by (simp add: s'_def)
    note ih = Suc.IH[OF p0 p1 p2 p3]
    have here: "stable_streak rendered a < 3" using True Suc.prems by simp
    have "\<forall>m. a \<le> m \<and> m < scroll_loop rendered (Suc a) n s' \<longrightarrow> stable_streak rendered m < 3"
    proof (intro allI impI)
      fix m assume m: "a \<le> m \<and> m < scroll_loop rendered (Suc a) n s'"
      show "stable_streak rendered m < 3"
      proof (cases "m = a")
        case True with here show ?thesis by simp
      next
        case False
        with m have "Suc a \<le> m" by simp
        with m ih show ?thesis by blast
      qed
    qed
    with ih show ?thesis unfolding eq by simp
  qed
qed

text \<open>
  Claim C6. The scroll loop is a total function, so the loader returns for every document.
  It uses at most \<open>max_scrolls\<close> = 60 rounds; it stops before the cap only at a round that
  ends three consecutive rounds without growth, and no earlier round ended such a run, so
  it stops at the first of the two events. For a document whose count grows in each of the
  rounds 1 to 4 and stays the same in rounds 5, 6 and 7, it performs exactly 7 rounds.
\<close>

theorem loader_terminates_first_stop:
  "scroll_loop rendered 0 0 0 \<le> max_scrolls
   \<and> max_scrolls = 60
   \<and> (scroll_loop rendered 0 0 0 = max_scrolls \<or> three_stable rendered (scroll_loop rendered 0 0 0))
   \<and> (\<forall>m < scroll_loop rendered 0 0 0. \<not> three_stable rendered m)
   \<and> (0 < rendered 1 \<and> rendered 1 < rendered 2 \<and> rendered 2 < rendered 3 \<and> rendered 3 < rendered 4
        \<and> rendered 5 = rendered 4 \<and> rendered 6 = rendered 4 \<and> rendered 7 = rendered 4
      \<longrightarrow> scroll_loop rendered 0 0 0 = 7)"
proof -
  define r where "r = scroll_loop rendered 0 0 0"
  have inv: "r \<le> max_scrolls \<and> (r < max_scrolls \<longrightarrow> 3 \<le> stable_streak rendered r)
      \<and> (\<forall>m. m < r \<longrightarrow> stable_streak rendered m < 3)"
    using scroll_loop_inv[of "max_scrolls" 0 0 rendered 0] by (simp add: r_def count_after_def)
  have a: "r \<le> max_scrolls" using inv by simp
  have b: "r = max_scrolls \<or> three_stable rendered r"
    using inv by (auto simp: streak_three[symmetric])
  have c: "\<forall>m < r. \<not> three_stable rendered m"
    using inv by (auto simp: streak_three[symmetric])
  have d: "r = 7"
    if g: "0 < rendered 1 \<and> rendered 1 < rendered 2 \<and> rendered 2 < rendered 3
         \<and> rendered 3 < rendered 4
         \<and> rendered 5 = rendered 4 \<and> rendered 6 = rendered 4 \<and> rendered 7 = rendered 4"
  proof -
    have t7: "three_stable rendered 7" using g by (simp add: three_stable_def count_after_def)
    have nt: "\<not> three_stable rendered m" if "m < 7" for m
    proof -
      from that consider "m < 3" | "m = 3" | "m = 4" | "m = 5" | "m = 6" by linarith
      then show ?thesis using g by cases (auto simp: three_stable_def count_after_def)
    qed
    have "\<not> 7 < r" using c t7 by blast
    moreover have "\<not> r < 7"
    proof
      assume lt: "r < 7"
      then have "r \<noteq> max_scrolls" by (simp add: max_scrolls_def)
      with b have "three_stable rendered r" by simp
      with nt[OF lt] show False by simp
    qed
    ultimately show ?thesis by simp
  qed
  from a b c d show ?thesis unfolding r_def by (simp add: max_scrolls_def)
qed

theorem loader_terminates_first_stop_witness:
  "0 < grow4 1 \<and> grow4 1 < grow4 2 \<and> grow4 2 < grow4 3 \<and> grow4 3 < grow4 4
   \<and> grow4 5 = grow4 4 \<and> grow4 6 = grow4 4 \<and> grow4 7 = grow4 4
   \<and> scroll_loop grow4 0 0 0 = 7 \<and> three_stable grow4 7 \<and> \<not> three_stable grow4 6"
  using loader_terminates_first_stop[of grow4]
  by (simp add: grow4_def three_stable_def count_after_def)


section \<open>Properties of the string functions\<close>

lemma strip_sublist: "sublist (py_strip U s) s"
proof -
  let ?t = "dropWhile (py_isspace U) s"
  have "sublist (dropWhile (py_isspace U) (rev ?t)) (rev ?t)"
    by (rule suffix_imp_sublist) (rule suffix_dropWhile)
  then have "sublist (py_strip U s) ?t"
    unfolding py_strip_def by (metis sublist_rev rev_rev_ident)
  moreover have "sublist ?t s"
    by (rule suffix_imp_sublist) (rule suffix_dropWhile)
  ultimately show ?thesis by (rule sublist_order.order_trans)
qed

lemma lower_at_masked:
  "i < length s \<Longrightarrow> map ascii_mask (lower_at U s i) = map ascii_mask (lower_char U (s ! i))"
  by (simp add: lower_at_def lower_char_def Let_def ascii_mask_def)

lemma py_lower_masked: "map ascii_mask (py_lower U s) = concat (map (\<lambda>c. map ascii_mask (lower_char U c)) s)"
proof -
  have "map ascii_mask (py_lower U s) = concat (map (\<lambda>i. map ascii_mask (lower_at U s i)) [0..<length s])"
    by (simp add: py_lower_def map_concat comp_def)
  also have "\<dots> = concat (map (\<lambda>i. map ascii_mask (lower_char U (s ! i))) [0..<length s])"
  proof -
    have "map (\<lambda>i. map ascii_mask (lower_at U s i)) [0..<length s]
        = map (\<lambda>i. map ascii_mask (lower_char U (s ! i))) [0..<length s]"
      by (rule map_cong) (simp_all add: lower_at_masked)
    then show ?thesis by (rule arg_cong)
  qed
  also have "\<dots> = concat (map (\<lambda>c. map ascii_mask (lower_char U c)) (map ((!) s) [0..<length s]))"
    by (simp add: comp_def)
  also have "\<dots> = concat (map (\<lambda>c. map ascii_mask (lower_char U c)) s)"
    by (simp only: map_nth)
  finally show ?thesis .
qed

lemma sublist_concat_map: "sublist t s \<Longrightarrow> sublist (concat (map f t)) (concat (map f s))"
proof -
  assume "sublist t s"
  then obtain a b where "s = a @ t @ b" by (auto simp: sublist_def)
  then have "concat (map f s) = concat (map f a) @ concat (map f t) @ concat (map f b)" by simp
  then show ?thesis unfolding sublist_def by blast
qed

lemma masked_ascii_eq: "\<forall>x\<in>set p. x < 128 \<Longrightarrow> map ascii_mask q = p \<Longrightarrow> q = p"
proof (induction q arbitrary: p)
  case Nil then show ?case by simp
next
  case (Cons y q)
  then obtain x p' where p: "p = x # p'" by auto
  with Cons.prems have "ascii_mask y = x" "x < 128" "map ascii_mask q = p'" by auto
  then have "y = x" by (auto simp: ascii_mask_def split: if_splits)
  with Cons.IH[of p'] Cons.prems p \<open>map ascii_mask q = p'\<close> show ?case by simp
qed

lemma sublist_unmask:
  assumes "\<forall>x\<in>set p. x < 128" and "sublist p (map ascii_mask xs)"
  shows "sublist p xs"
proof -
  from assms(2) obtain u v where "map ascii_mask xs = u @ p @ v" by (auto simp: sublist_def)
  then have "\<exists>u' w. xs = u' @ w \<and> u = map ascii_mask u' \<and> p @ v = map ascii_mask w"
    by (simp only: map_eq_append_conv)
  then obtain u' w where w: "xs = u' @ w" "map ascii_mask w = p @ v" by auto
  from w(2) have "\<exists>q v'. w = q @ v' \<and> p = map ascii_mask q \<and> v = map ascii_mask v'"
    by (simp only: map_eq_append_conv)
  then obtain q v' where "w = q @ v'" and q: "map ascii_mask q = p" by auto
  with w have xs: "xs = u' @ q @ v'" by simp
  from masked_ascii_eq[OF assms(1) q] xs show ?thesis by (auto simp: sublist_def)
qed

lemma sublist_mask:
  assumes "\<forall>x\<in>set p. x < 128" and "sublist p xs"
  shows "sublist p (map ascii_mask xs)"
proof -
  have "map ascii_mask p = p" using assms(1) by (induction p) (auto simp: ascii_mask_def)
  with map_mono_sublist[OF assms(2), of ascii_mask] show ?thesis by simp
qed

lemma lower_sublist_ascii:
  assumes a: "\<forall>x\<in>set p. x < 128" and ts: "sublist t s" and "py_in p (py_lower U t)"
  shows "py_in p (py_lower U s)"
proof -
  from assms(3) have "sublist p (map ascii_mask (py_lower U t))"
    unfolding py_in_def by (rule sublist_mask[OF a])
  then have "sublist p (concat (map (\<lambda>c. map ascii_mask (lower_char U c)) t))"
    by (simp only: py_lower_masked)
  moreover have "sublist (concat (map (\<lambda>c. map ascii_mask (lower_char U c)) t))
                         (concat (map (\<lambda>c. map ascii_mask (lower_char U c)) s))"
    by (rule sublist_concat_map[OF ts])
  ultimately have "sublist p (concat (map (\<lambda>c. map ascii_mask (lower_char U c)) s))"
    by (rule sublist_order.order_trans)
  then have "sublist p (map ascii_mask (py_lower U s))" by (simp only: py_lower_masked)
  then show ?thesis unfolding py_in_def by (rule sublist_unmask[OF a])
qed

lemma owner_phrase_ascii: "\<forall>x\<in>set owner_phrase. x < 128"
  by (simp add: owner_phrase_def py_def)

lemma owner_phrase_nonempty: "owner_phrase \<noteq> []"
  by (simp add: owner_phrase_def py_def)

lemma clean_final_text_free: "\<not> py_in owner_phrase (py_lower U (clean_final_text U t))"
proof (cases "t = [] \<or> py_in owner_phrase (py_lower U t)")
  case True
  then have "clean_final_text U t = []" by (auto simp: clean_final_text_def Let_def)
  then show ?thesis using owner_phrase_nonempty by (simp add: py_lower_def py_in_def)
next
  case False
  then have eq: "clean_final_text U t = py_strip U t" by (simp add: clean_final_text_def Let_def)
  have "py_in owner_phrase (py_lower U (py_strip U t)) \<Longrightarrow> py_in owner_phrase (py_lower U t)"
    by (rule lower_sublist_ascii[OF owner_phrase_ascii strip_sublist])
  with False show ?thesis unfolding eq by blast
qed

lemma digits_value_snoc:
  "digits_value U acc (xs @ [c]) =
     (case digits_value U acc xs of
        None \<Rightarrow> None
      | Some a \<Rightarrow> (case digit_value U c of None \<Rightarrow> None | Some v \<Rightarrow> Some (10 * a + v)))"
  by (induction xs arbitrary: acc) (auto split: option.splits)

lemma digits_value_dec_digits: "digits_value U 0 (dec_digits n) = Some n"
proof (induction n rule: dec_digits.induct)
  case (1 n)
  show ?case
  proof (cases "n < 10")
    case True
    then show ?thesis
      by (subst dec_digits.simps) (simp add: digit_value_def ascii_digit_def)
  next
    case False
    have "n mod 10 < 10" by simp
    then have dv: "digit_value U (48 + n mod 10) = Some (n mod 10)"
      by (simp add: digit_value_def ascii_digit_def)
    from False "1.IH" have "digits_value U 0 (dec_digits (n div 10)) = Some (n div 10)" by simp
    with False dv show ?thesis
      by (subst dec_digits.simps) (simp add: digits_value_snoc)
  qed
qed

lemma digits_value_zeros: "digits_value U 0 (replicate k 48 @ ds) = digits_value U 0 ds"
  by (induction k) (simp_all add: digit_value_def ascii_digit_def)

lemma digits_value_fmt_03d: "digits_value U 0 (fmt_03d n) = Some n"
  by (simp add: fmt_03d_def digits_value_zeros digits_value_dec_digits)

lemma fmt_03d_inj: "fmt_03d m = fmt_03d n \<Longrightarrow> m = n"
  by (metis digits_value_fmt_03d option.inject)





section \<open>Properties of the collector and of the loop over the entries\<close>

lemma collect_step_keys:
  "map fst (collect_step d u c) =
     (if review_id_of d c \<in> set (map fst u) then map fst u else map fst u @ [review_id_of d c])"
  by (simp add: collect_step_def review_id_of_def Let_def)

lemma foldl_collect_inv:
  "distinct (map fst u) \<Longrightarrow> (\<forall>(k, c) \<in> set u. review_id_of d c = k) \<Longrightarrow>
   distinct (map fst (foldl (collect_step d) u cs))
   \<and> (\<forall>(k, c) \<in> set (foldl (collect_step d) u cs). review_id_of d c = k)
   \<and> set (map fst (foldl (collect_step d) u cs)) = set (map fst u) \<union> review_id_of d ` set cs
   \<and> (\<exists>w. foldl (collect_step d) u cs = u @ w \<and> subseq (map snd w) cs
          \<and> (\<forall>(k, c) \<in> set w. find (\<lambda>x. review_id_of d x = k) cs = Some c))"
proof (induction cs arbitrary: u)
  case Nil
  then show ?case by simp
next
  case (Cons c cs)
  let ?u = "collect_step d u c"
  have d1: "distinct (map fst ?u)" using Cons.prems(1) by (simp add: collect_step_keys)
  have d2: "\<forall>(k, c) \<in> set ?u. review_id_of d c = k"
    using Cons.prems(2) by (auto simp: collect_step_def review_id_of_def Let_def)
  note ih = Cons.IH[OF d1 d2]
  from ih obtain w where w: "foldl (collect_step d) ?u cs = ?u @ w" "subseq (map snd w) cs"
    "\<forall>(k, c) \<in> set w. find (\<lambda>x. review_id_of d x = k) cs = Some c" by blast
  have keys: "set (map fst (foldl (collect_step d) ?u cs))
                = set (map fst ?u) \<union> review_id_of d ` set cs"
    using ih by blast
  have dist: "distinct (map fst (?u @ w))" using ih w(1) by simp
  show ?case
  proof (cases "review_id_of d c \<in> set (map fst u)")
    case True
    then have u: "?u = u" by (simp add: collect_step_def review_id_of_def Let_def)
    have fresh: "\<forall>(k, c') \<in> set w. k \<noteq> review_id_of d c"
      using dist True u by (auto simp: rev_image_eqI)
    have "\<forall>(k, c') \<in> set w. find (\<lambda>x. review_id_of d x = k) (c # cs) = Some c'"
      using w(3) fresh by auto
    moreover have "subseq (map snd w) (c # cs)" using w(2) by (rule list_emb_Cons)
    moreover have "foldl (collect_step d) u (c # cs) = u @ w" using w(1) u by simp
    ultimately have ex: "\<exists>w. foldl (collect_step d) u (c # cs) = u @ w
          \<and> subseq (map snd w) (c # cs)
          \<and> (\<forall>(k, c') \<in> set w. find (\<lambda>x. review_id_of d x = k) (c # cs) = Some c')"
      by blast
    from ih keys True u ex show ?thesis by auto
  next
    case False
    then have u: "?u = u @ [(review_id_of d c, c)]"
      by (simp add: collect_step_def review_id_of_def Let_def)
    have fresh: "\<forall>(k, c') \<in> set w. k \<noteq> review_id_of d c"
      using dist u by (auto simp: rev_image_eqI)
    let ?w = "(review_id_of d c, c) # w"
    have "\<forall>(k, c') \<in> set ?w. find (\<lambda>x. review_id_of d x = k) (c # cs) = Some c'"
      using w(3) fresh by auto
    moreover have "subseq (map snd ?w) (c # cs)" using w(2) by simp
    moreover have "foldl (collect_step d) u (c # cs) = u @ ?w" using w(1) u by simp
    ultimately have ex: "\<exists>w. foldl (collect_step d) u (c # cs) = u @ w
          \<and> subseq (map snd w) (c # cs)
          \<and> (\<forall>(k, c') \<in> set w. find (\<lambda>x. review_id_of d x = k) (c # cs) = Some c')"
      by blast
    from ih keys u ex show ?thesis by auto
  qed
qed

lemma collect_props:
  "distinct (map fst (collect d cards))
   \<and> set (map fst (collect d cards)) = review_id_of d ` set cards
   \<and> subseq (map snd (collect d cards)) cards
   \<and> (\<forall>(k, c) \<in> set (collect d cards). find (\<lambda>x. review_id_of d x = k) cards = Some c)"
  using foldl_collect_inv[of "[]" d cards] by (auto simp: collect_def)

lemma process_entry_uid:
  "process_entry U today net bn d n i rcard = Inr (row, fs) \<Longrightarrow>
     ReviewUID row = py ''R'' @ fmt_03d (n + 1)"
  by (auto simp: process_entry_def Let_def split: option.splits sum.splits)

lemma process_entry_review:
  "process_entry U today net bn d n i rcard = Inr (row, fs) \<Longrightarrow>
     Review row = clean_final_text U (ex_text (extract_text U d i rcard))"
  by (auto simp: process_entry_def Let_def split: option.splits sum.splits)


lemma process_all_rows:
  "process_all U today net bn d i cs data fetched = Inr (rows, fs) \<Longrightarrow> i = length data \<Longrightarrow>
     length rows = length data + length cs
     \<and> take (length data) rows = data
     \<and> (\<forall>k < length cs. \<exists>fs'.
           process_entry U today net bn d (length data + k) (length data + k) (cs ! k)
             = Inr (rows ! (length data + k), fs'))"
proof (induction cs arbitrary: i data fetched)
  case Nil
  then show ?case by simp
next
  case (Cons c cs)
  from Cons.prems obtain row fs1 where
    pe: "process_entry U today net bn d (length data) i c = Inr (row, fs1)"
    and rest: "process_all U today net bn d (i + 1) cs (data @ [row]) (fetched @ fs1)
                 = Inr (rows, fs)"
    by (auto split: sum.splits)
  from Cons.prems(2) have i1: "i + 1 = length (data @ [row])" by simp
  note ih = Cons.IH[OF rest i1]
  from ih have len: "length rows = length data + length (c # cs)" by simp
  from ih have tk: "take (Suc (length data)) rows = data @ [row]" by simp
  have "take (length data) rows = take (length data) (take (Suc (length data)) rows)"
    by (simp add: min_def)
  then have tk': "take (length data) rows = data" by (simp add: tk)
  from tk have nth0: "rows ! length data = row"
    by (metis lessI nth_append_length nth_take)
  have "\<exists>fs'. process_entry U today net bn d (length data + k) (length data + k) ((c # cs) ! k)
                = Inr (rows ! (length data + k), fs')" if k: "k < length (c # cs)" for k
  proof (cases k)
    case 0
    with pe nth0 Cons.prems(2) show ?thesis by auto
  next
    case (Suc j)
    with k have "j < length cs" by simp
    with ih obtain fs' where
      "process_entry U today net bn d (length (data @ [row]) + j) (length (data @ [row]) + j)
         (cs ! j) = Inr (rows ! (length (data @ [row]) + j), fs')" by blast
    with Suc show ?thesis by auto
  qed
  with len tk' show ?case by blast
qed

section \<open>The claims about collection, dates and the final cleanup\<close>

text \<open>
  Claim C7. After collection every review id occurs once among the collected entries, the
  ids are those of the rendered cards, the entry kept for an id is the first card that
  carries it, and the entries are in the order of the cards. When the run produces rows,
  there is one row per collected entry, row \<open>k\<close> is made from entry \<open>k\<close> and has the
  identifier \<open>R\<close> followed by \<open>k + 1\<close> in three digits, and no two rows share an identifier.
\<close>

theorem collected_entries_unique:
  "distinct (map fst (collect d cards))
   \<and> set (map fst (collect d cards)) = review_id_of d ` set cards
   \<and> subseq (map snd (collect d cards)) cards
   \<and> (\<forall>(k, c) \<in> set (collect d cards). find (\<lambda>x. review_id_of d x = k) cards = Some c)
   \<and> (run U today net bn pg = Inr (rows, fs) \<longrightarrow>
        length rows = length (collect (pg_final pg) (review_cards (pg_final pg)))
        \<and> (\<forall>k < length rows.
              ReviewUID (rows ! k) = py ''R'' @ fmt_03d (k + 1)
              \<and> (\<exists>fs'. process_entry U today net bn (pg_final pg) k k
                          (snd (collect (pg_final pg) (review_cards (pg_final pg)) ! k))
                        = Inr (rows ! k, fs')))
        \<and> distinct (map ReviewUID rows))"
proof -
  have rows: "length rows = length (collect (pg_final pg) (review_cards (pg_final pg)))
        \<and> (\<forall>k < length rows.
              ReviewUID (rows ! k) = py ''R'' @ fmt_03d (k + 1)
              \<and> (\<exists>fs'. process_entry U today net bn (pg_final pg) k k
                          (snd (collect (pg_final pg) (review_cards (pg_final pg)) ! k))
                        = Inr (rows ! k, fs')))
        \<and> distinct (map ReviewUID rows)"
    if r: "run U today net bn pg = Inr (rows, fs)"
  proof -
    let ?u = "collect (pg_final pg) (review_cards (pg_final pg))"
    from r have pa: "process_all U today net bn (pg_final pg) 0 (map snd ?u) [] [] = Inr (rows, fs)"
      by (auto simp: run_def Let_def split: if_splits)
    from process_all_rows[OF pa] have len: "length rows = length ?u"
      and each: "\<forall>k < length ?u. \<exists>fs'.
           process_entry U today net bn (pg_final pg) k k (map snd ?u ! k) = Inr (rows ! k, fs')"
      by simp_all
    have uid: "ReviewUID (rows ! k) = py ''R'' @ fmt_03d (k + 1)
              \<and> (\<exists>fs'. process_entry U today net bn (pg_final pg) k k (snd (?u ! k))
                        = Inr (rows ! k, fs'))" if k: "k < length rows" for k
    proof -
      from k len each obtain fs' where
        pe: "process_entry U today net bn (pg_final pg) k k (map snd ?u ! k) = Inr (rows ! k, fs')"
        by auto
      from k len have "map snd ?u ! k = snd (?u ! k)" by simp
      with pe process_entry_uid[OF pe] show ?thesis by auto
    qed
    have "distinct (map ReviewUID rows)"
      unfolding distinct_conv_nth
    proof (intro allI impI)
      fix a b assume a: "a < length (map ReviewUID rows)" and b: "b < length (map ReviewUID rows)"
        and ne: "a \<noteq> b"
      from a b uid have "map ReviewUID rows ! a = py ''R'' @ fmt_03d (a + 1)"
        "map ReviewUID rows ! b = py ''R'' @ fmt_03d (b + 1)" by simp_all
      with ne show "map ReviewUID rows ! a \<noteq> map ReviewUID rows ! b"
        by (auto dest: fmt_03d_inj)
    qed
    with len uid show ?thesis by blast
  qed
  with collect_props[of d cards] show ?thesis by blast
qed

theorem collected_entries_unique_witness:
  "run ucd_plain 739924 (\<lambda>u. True) (py ''Cafe'') page_listing = Inr ([row_ann, row_bob], [])
   \<and> map (review_id_of doc_listing) (review_cards doc_listing)
       = [Some (py ''a''), Some (py ''b''), Some (py ''a'')]
   \<and> collect doc_listing (review_cards doc_listing) = [(Some (py ''a''), 0), (Some (py ''b''), 5)]
   \<and> distinct (map ReviewUID [row_ann, row_bob])
   \<and> ReviewUID ([row_ann, row_bob] ! 1) = py ''R'' @ fmt_03d 2"
proof -
  have r: "run ucd_plain 739924 (\<lambda>u. True) (py ''Cafe'') page_listing = Inr ([row_ann, row_bob], [])"
    by code_simp
  have i: "map (review_id_of doc_listing) (review_cards doc_listing)
       = [Some (py ''a''), Some (py ''b''), Some (py ''a'')]"
    by code_simp
  have c: "collect doc_listing (review_cards doc_listing) = [(Some (py ''a''), 0), (Some (py ''b''), 5)]"
    by code_simp
  from collected_entries_unique[where U = ucd_plain and today = 739924 and net = "\<lambda>u. True"
      and bn = "py ''Cafe''" and pg = page_listing and rows = "[row_ann, row_bob]" and fs = "[]"
      and d = doc_listing and cards = "review_cards doc_listing"] r
  have dist: "distinct (map ReviewUID [row_ann, row_bob])"
    and uid: "\<forall>k < length [row_ann, row_bob].
                ReviewUID ([row_ann, row_bob] ! k) = py ''R'' @ fmt_03d (k + 1)"
    by blast+
  from uid have "ReviewUID ([row_ann, row_bob] ! 1) = py ''R'' @ fmt_03d (1 + 1)"
    by (rule allE[where x = 1]) simp
  then have "ReviewUID ([row_ann, row_bob] ! 1) = py ''R'' @ fmt_03d 2"
    by (simp add: numeral_2_eq_2)
  with r i c dist show ?thesis by blast
qed



text \<open>
  Claim C10. The final cleanup returns the empty string for a text whose lowered form
  contains "response from the owner" anywhere and the stripped text otherwise, and its
  result never contains the phrase in lowered form. The \<open>Review\<close> column of every exported
  row is the cleanup of the text the strategy chain returned, so it never contains the
  phrase.
\<close>

theorem final_cleanup_removes_owner_phrase:
  "clean_final_text U t = (if py_in owner_phrase (py_lower U t) then [] else py_strip U t)
   \<and> \<not> py_in owner_phrase (py_lower U (clean_final_text U t))
   \<and> (process_entry U today net bn d n i rcard = Inr (row, fs) \<longrightarrow>
        Review row = clean_final_text U (ex_text (extract_text U d i rcard))
        \<and> \<not> py_in owner_phrase (py_lower U (Review row)))"
proof -
  have a: "clean_final_text U t = (if py_in owner_phrase (py_lower U t) then [] else py_strip U t)"
    by (simp add: clean_final_text_def Let_def py_strip_def)
  have c: "Review row = clean_final_text U (ex_text (extract_text U d i rcard))
        \<and> \<not> py_in owner_phrase (py_lower U (Review row))"
    if "process_entry U today net bn d n i rcard = Inr (row, fs)"
    using process_entry_review[OF that] clean_final_text_free[of U] by simp
  from a clean_final_text_free[of U t] c show ?thesis by blast
qed

theorem final_cleanup_removes_owner_phrase_witness:
  "process_entry ucd_plain 739924 (\<lambda>u. True) (py ''Cafe'') doc_listing 0 0 0 = Inr (row_ann, [])
   \<and> \<not> py_in owner_phrase (py_lower ucd_plain (Review row_ann))
   \<and> py_in owner_phrase (py_lower ucd_plain (py ''Nice. Response from the Owner: thanks''))
   \<and> clean_final_text ucd_plain (py ''Nice. Response from the Owner: thanks'') = []
   \<and> clean_final_text ucd_plain (py '' Good value '') = py ''Good value''"
proof -
  have pe: "process_entry ucd_plain 739924 (\<lambda>u. True) (py ''Cafe'') doc_listing 0 0 0
              = Inr (row_ann, [])" by code_simp
  have p1: "py_in owner_phrase (py_lower ucd_plain (py ''Nice. Response from the Owner: thanks''))"
    by code_simp
  have p2: "\<not> py_in owner_phrase (py_lower ucd_plain (py '' Good value ''))" by code_simp
  have p3: "py_strip ucd_plain (py '' Good value '') = py ''Good value''" by code_simp
  note inst = final_cleanup_removes_owner_phrase[where U = ucd_plain and today = 739924
      and net = "\<lambda>u. True" and bn = "py ''Cafe''" and d = doc_listing and n = 0 and i = 0
      and rcard = 0 and row = row_ann and fs = "[]"]
  from inst[where t = "py ''Nice. Response from the Owner: thanks''"] pe
  have a: "\<not> py_in owner_phrase (py_lower ucd_plain (Review row_ann))"
    by blast
  from inst[where t = "py ''Nice. Response from the Owner: thanks''", THEN conjunct1] p1
  have b: "clean_final_text ucd_plain (py ''Nice. Response from the Owner: thanks'') = []"
    by simp
  from inst[where t = "py '' Good value ''", THEN conjunct1] p2 p3
  have c: "clean_final_text ucd_plain (py '' Good value '') = py ''Good value''"
    by simp
  from pe a p1 b c show ?thesis by blast
qed

section \<open>Properties of the strategy chain\<close>

lemma split_on_nonempty: "split_on P s \<noteq> []"
  by (induction s) (auto split: list.splits)

lemma split_on_hd_prefix: "split_on P s = w # ws \<Longrightarrow> prefix w s"
  by (induction s arbitrary: w ws) (auto split: if_splits list.splits)

lemma split_on_sublist: "c \<in> set (split_on P s) \<Longrightarrow> sublist c s"
proof (induction s arbitrary: c)
  case Nil
  then show ?case by simp
next
  case (Cons x xs)
  show ?case
  proof (cases "P x")
    case True
    with Cons.prems have "c = [] \<or> c \<in> set (split_on P xs)" by auto
    then show ?thesis
    proof
      assume "c = []" then show ?thesis by simp
    next
      assume "c \<in> set (split_on P xs)"
      then have "sublist c xs" by (rule Cons.IH)
      then show ?thesis by (simp add: sublist_Cons_right)
    qed
  next
    case False
    obtain w ws where sp: "split_on P xs = w # ws"
      using split_on_nonempty[of P xs] by (cases "split_on P xs") auto
    with False Cons.prems have "c = x # w \<or> c \<in> set ws" by auto
    then show ?thesis
    proof
      assume c: "c = x # w"
      from split_on_hd_prefix[OF sp] have "prefix (x # w) (x # xs)" by simp
      then show ?thesis unfolding c by (rule prefix_imp_sublist)
    next
      assume "c \<in> set ws"
      with sp have "c \<in> set (split_on P xs)" by simp
      then have "sublist c xs" by (rule Cons.IH)
      then show ?thesis by (simp add: sublist_Cons_right)
    qed
  qed
qed

text \<open>An element found by its class name has that name inside its class attribute.\<close>

lemma has_class_in_attr: "has_class d c e \<Longrightarrow> py_in c (attr_or_empty d e ''class'')"
  unfolding has_class_def py_in_def by (rule split_on_sublist)

lemma found_by_class_has_marker:
  "e \<in> set (find_elements_by_class d ctx c) \<Longrightarrow> py_in c (attr_or_empty d e ''class'')"
  by (auto simp: find_elements_by_class_def intro: has_class_in_attr)

text \<open>
  So the join of strategy 2 and the list of strategy 4, which keep a span found by the
  class \<open>RfDO5c\<close> only if its class attribute does not contain \<open>RfDO5c\<close>, are empty for
  every document.
\<close>

lemma tagged_scan_text_empty: "tagged_scan_text U d rcard = []"
proof -
  have "filter (\<lambda>span. py_strip U (text_of d span) \<noteq> []
                        \<and> \<not> py_in (py ''RfDO5c'') (attr_or_empty d span ''class''))
           (fallback_spans d rcard) = []"
    by (auto simp: filter_empty_conv fallback_spans_def Let_def dest: found_by_class_has_marker)
  then show ?thesis by (simp add: tagged_scan_text_def)
qed

lemma narrow_fallback_text: "ex_text (narrow_fallback U d rcard st) = ex_text st"
proof (cases "jslog_subtree d rcard")
  case None
  then show ?thesis by (simp add: narrow_fallback_def)
next
  case (Some sub)
  have "filter (\<lambda>s. py_strip U (text_of d s) \<noteq> []
                   \<and> \<not> py_in (py ''RfDO5c'') (attr_or_empty d s ''class''))
          (find_elements_by_class d (Some sub) (py ''RfDO5c'')) = []"
    by (auto simp: filter_empty_conv dest: found_by_class_has_marker)
  with Some show ?thesis by (simp add: narrow_fallback_def)
qed











section \<open>Properties of the image harvest\<close>

lemma image_step_accepted:
  "image_step net d i (files, fetched) (idx, b) =
     (let u = image_url (attr_or_empty d b ''style'') in
      if accepted_url u
      then ((if net u then files @ [image_filename i idx] else files),
            fetched @ [(u, image_filename i idx)])
      else (files, fetched))"
proof (cases "get_attribute d b ''style''")
  case None
  have "\<not> py_in (py ''background-image'') []" by (simp add: py_in_def py_def)
  with None show ?thesis
    by (simp add: image_step_def attr_or_empty_def image_url_def accepted_url_def)
next
  case (Some st)
  then show ?thesis
    by (simp add: image_step_def attr_or_empty_def accepted_url_def Let_def)
qed

lemma foldl_image_step:
  "foldl (image_step net d i) (files, fetched) ps =
     (files @ map (\<lambda>(idx, b). image_filename i idx)
                (filter (\<lambda>(idx, b). accepted_url (image_url (attr_or_empty d b ''style''))
                                    \<and> net (image_url (attr_or_empty d b ''style''))) ps),
      fetched @ map (\<lambda>(idx, b). (image_url (attr_or_empty d b ''style''), image_filename i idx))
                (filter (\<lambda>(idx, b). accepted_url (image_url (attr_or_empty d b ''style''))) ps))"
proof (induction ps arbitrary: files fetched)
  case Nil
  then show ?case by simp
next
  case (Cons p ps)
  obtain idx b where p: "p = (idx, b)" by (cases p)
  show ?case
    unfolding p foldl_Cons image_step_accepted Let_def
    by (simp add: Cons.IH)
qed

section \<open>The claims about the strategy chain, error handling and images\<close>







text \<open>
  Claim C3 on the code. For the card of \<open>doc_tagged\<close> at position 29 the second strategy
  runs; the tagged-text nodes whose nearest identified ancestor carries the card's id and
  which lie outside any owner block are the one span with the text "Great service"; the
  candidate of the strategy is the empty string. It is the empty string for every
  document, because the join skips each span whose class attribute contains \<open>RfDO5c\<close>.
\<close>

theorem tagged_scan_joins_nothing:
  "take 2 (ex_attempted (extract_text ucd_plain doc_tagged 29 0)) = [Primary, TaggedScan]
   \<and> map (text_of doc_tagged) (fallback_spans doc_tagged 0) = [py ''Great service'']
   \<and> tagged_scan_text ucd_plain doc_tagged 0 = []
   \<and> tagged_scan_text U d rcard = []"
proof -
  have a: "take 2 (ex_attempted (extract_text ucd_plain doc_tagged 29 0)) = [Primary, TaggedScan]"
    by code_simp
  have b: "map (text_of doc_tagged) (fallback_spans doc_tagged 0) = [py ''Great service'']"
    by code_simp
  from a b tagged_scan_text_empty[of ucd_plain doc_tagged 0] tagged_scan_text_empty[of U d rcard]
  show ?thesis by blast
qed

text \<open>
  Claim C4 on the code. In \<open>doc_unrated\<close> the first card is processed into a row; the
  rating label of the second has no digit, \<open>re.search\<close> returns \<open>None\<close>, and the
  AttributeError of \<open>.group()\<close> leaves the loop and \<open>main\<close>: the run ends with the
  exception and exports no row.
\<close>

theorem rating_without_digit_aborts_run:
  "process_entry ucd_plain 739924 (\<lambda>u. True) (py ''Cafe'') doc_unrated 0 0 0 = Inr (row_ann, [])
   \<and> numeric_rating ucd_plain (Some (py ''Rated'')) = Inl AttributeError
   \<and> process_entry ucd_plain 739924 (\<lambda>u. True) (py ''Cafe'') doc_unrated 1 1 5 = Inl AttributeError
   \<and> run ucd_plain 739924 (\<lambda>u. True) (py ''Cafe'') page_unrated = Inl AttributeError"
proof -
  have a: "process_entry ucd_plain 739924 (\<lambda>u. True) (py ''Cafe'') doc_unrated 0 0 0
             = Inr (row_ann, [])" by code_simp
  have b: "numeric_rating ucd_plain (Some (py ''Rated'')) = Inl AttributeError" by code_simp
  have c: "process_entry ucd_plain 739924 (\<lambda>u. True) (py ''Cafe'') doc_unrated 1 1 5
             = Inl AttributeError" by code_simp
  have d: "run ucd_plain 739924 (\<lambda>u. True) (py ''Cafe'') page_unrated = Inl AttributeError"
    by code_simp
  from a b c d show ?thesis by blast
qed

text \<open>
  Claim C5, as stated, fails: for the card of \<open>doc_photos\<close> two images are fetched and
  recorded, and the second is not on the image host (its URL has the host's name in the
  path).
\<close>

theorem image_cap_counterexample:
  "harvest_images (\<lambda>u. True) doc_photos 0 0 =
     ([py ''img_001_1.jpg'', py ''img_001_2.jpg''],
      [(py ''https://lh3.googleusercontent.com/p1'', py ''img_001_1.jpg''),
       (py ''https://example.com/googleusercontent/p2'', py ''img_001_2.jpg'')])"
  by code_simp

text \<open>
  Claim C5, amended. An image URL is accepted if and only if it is not empty and contains
  "googleusercontent". Every accepted image of the entry is fetched, in document order,
  under the file name made from the entry's position and the image's position among the
  entry's image buttons; the recorded files are those whose fetch succeeded. There is no
  cap on the number of images per entry.
\<close>

theorem image_harvest_all_accepted:
  "snd (harvest_images net d i rcard) =
     map (\<lambda>(idx, b). (image_url (attr_or_empty d b ''style''), image_filename i idx))
       (filter (\<lambda>(idx, b). accepted_url (image_url (attr_or_empty d b ''style'')))
         (enumerate 0 (image_buttons d rcard)))
   \<and> fst (harvest_images net d i rcard) =
       map snd (filter (\<lambda>(u, f). net u) (snd (harvest_images net d i rcard)))
   \<and> accepted_url u = (u \<noteq> [] \<and> py_in (py ''googleusercontent'') u)"
proof -
  let ?ps = "enumerate 0 (image_buttons d rcard)"
  have h: "harvest_images net d i rcard =
     (map (\<lambda>(idx, b). image_filename i idx)
                (filter (\<lambda>(idx, b). accepted_url (image_url (attr_or_empty d b ''style''))
                                    \<and> net (image_url (attr_or_empty d b ''style''))) ?ps),
      map (\<lambda>(idx, b). (image_url (attr_or_empty d b ''style''), image_filename i idx))
                (filter (\<lambda>(idx, b). accepted_url (image_url (attr_or_empty d b ''style''))) ?ps))"
    unfolding harvest_images_def by (simp add: foldl_image_step)
  have "map snd (filter (\<lambda>(u, f). net u)
          (map (\<lambda>(idx, b). (image_url (attr_or_empty d b ''style''), image_filename i idx))
             (filter (\<lambda>(idx, b). accepted_url (image_url (attr_or_empty d b ''style''))) ps)))
        = map (\<lambda>(idx, b). image_filename i idx)
                (filter (\<lambda>(idx, b). accepted_url (image_url (attr_or_empty d b ''style''))
                                    \<and> net (image_url (attr_or_empty d b ''style''))) ps)" for ps
    by (induction ps) auto
  with h show ?thesis by (simp add: accepted_url_def)
qed

theorem image_harvest_all_accepted_witness:
  "enumerate 0 (image_buttons doc_photos 0) = [(0, 2), (1, 3), (2, 4)]
   \<and> image_url (attr_or_empty doc_photos 4 ''style'') = py ''https://example.com/p3''
   \<and> \<not> accepted_url (py ''https://example.com/p3'')
   \<and> snd (harvest_images (\<lambda>u. u = py ''https://lh3.googleusercontent.com/p1'') doc_photos 6 0)
       = [(py ''https://lh3.googleusercontent.com/p1'', py ''img_007_1.jpg''),
          (py ''https://example.com/googleusercontent/p2'', py ''img_007_2.jpg'')]
   \<and> fst (harvest_images (\<lambda>u. u = py ''https://lh3.googleusercontent.com/p1'') doc_photos 6 0)
       = [py ''img_007_1.jpg'']"
proof -
  have e: "enumerate 0 (image_buttons doc_photos 0) = [(0, 2), (1, 3), (2, 4)]" by code_simp
  have u2: "image_url (attr_or_empty doc_photos 2 ''style'')
              = py ''https://lh3.googleusercontent.com/p1''" by code_simp
  have u3: "image_url (attr_or_empty doc_photos 3 ''style'')
              = py ''https://example.com/googleusercontent/p2''" by code_simp
  have u4: "image_url (attr_or_empty doc_photos 4 ''style'') = py ''https://example.com/p3''"
    by code_simp
  have a2: "accepted_url (py ''https://lh3.googleusercontent.com/p1'')" by code_simp
  have a3: "accepted_url (py ''https://example.com/googleusercontent/p2'')" by code_simp
  have a4: "\<not> accepted_url (py ''https://example.com/p3'')" by code_simp
  have f1: "image_filename 6 0 = py ''img_007_1.jpg''" by code_simp
  have f2: "image_filename 6 1 = py ''img_007_2.jpg''" by code_simp
  have ne: "py ''https://example.com/googleusercontent/p2'' \<noteq> py ''https://lh3.googleusercontent.com/p1''"
    by code_simp
  note inst = image_harvest_all_accepted[of "\<lambda>u. u = py ''https://lh3.googleusercontent.com/p1''"
      doc_photos 6 0 "[]"]
  from inst e u2 u3 u4 a2 a3 a4 f1 f2
  have s: "snd (harvest_images (\<lambda>u. u = py ''https://lh3.googleusercontent.com/p1'') doc_photos 6 0)
       = [(py ''https://lh3.googleusercontent.com/p1'', py ''img_007_1.jpg''),
          (py ''https://example.com/googleusercontent/p2'', py ''img_007_2.jpg'')]"
    by simp
  from inst s ne
  have f: "fst (harvest_images (\<lambda>u. u = py ''https://lh3.googleusercontent.com/p1'') doc_photos 6 0)
       = [py ''img_007_1.jpg'']"
    by simp
  from e u4 a4 s f show ?thesis by blast
qed

section \<open>The two versions of the script\<close>





























end
